theory Spec2Isabelle
  imports Complex_Main
begin

section \<open>Numbers\<close>

text \<open>
  The script \<^verbatim>\<open>scripts/plot_abtc_btc.py\<close> computes with Python \<^verbatim>\<open>float\<close>s and
  \<^verbatim>\<open>int\<close>s. Python's unbounded \<^verbatim>\<open>int\<close> is \<^typ>\<open>int\<close> (lengths and indices, which are
  never negative, are \<^typ>\<open>nat\<close>). A finite \<^verbatim>\<open>float\<close> is the \<^typ>\<open>real\<close> number it
  denotes; infinities and NaN are outside the model. In the statistics, the fluctuation
  scale and the formatter the arithmetic is exact: the properties there are the formulas
  the code evaluates, and the literal \<^verbatim>\<open>0.05\<close> is the real number one twentieth. In the
  coordinate mapping \<^verbatim>\<open>price_y\<close> every operation rounds to a double, as set out in the
  section on double-precision arithmetic. Every comparison and every branch of the
  source is kept as it is written.
\<close>

section \<open>Statistics\<close>

text \<open>
  \<^verbatim>\<open>compute_fluctuation\<close>: the result list starts as \<^verbatim>\<open>[0.0]\<close> and the loop over
  \<^verbatim>\<open>zip(values, values[1:])\<close> appends one element per pair of neighbours.
\<close>

definition fluctuation_step :: "real \<times> real \<Rightarrow> real" where
  "fluctuation_step p =
     (case p of (prev, cur) \<Rightarrow>
        if prev = 0 then 0 else ((cur - prev) / prev) * 100)"

definition compute_fluctuation :: "real list \<Rightarrow> real list" where
  "compute_fluctuation values =
     (if values = [] then []
      else [0] @ map fluctuation_step (zip values (drop 1 values)))"

text \<open>
  \<^verbatim>\<open>compute_relative_change\<close>: the baseline is \<^verbatim>\<open>values[0]\<close>, read only after the
  emptiness test.
\<close>

definition compute_relative_change :: "real list \<Rightarrow> real list" where
  "compute_relative_change values =
     (case values of
        [] \<Rightarrow> []
      | baseline # _ \<Rightarrow>
          if baseline = 0 then map (\<lambda>_. 0) values
          else map (\<lambda>value. ((value - baseline) / baseline) * 100) values)"

text \<open>
  \<^verbatim>\<open>compute_trendline\<close>: \<^verbatim>\<open>xs = list(range(n))\<close> is a list of Python \<^verbatim>\<open>int\<close>s, so
  \<^verbatim>\<open>sum_x\<close>, \<^verbatim>\<open>sum_xx\<close> and \<^verbatim>\<open>denom\<close> are integers and the test \<^verbatim>\<open>denom == 0\<close> is an
  integer comparison; \<^verbatim>\<open>sum_y\<close>, \<^verbatim>\<open>sum_xy\<close>, \<^verbatim>\<open>slope\<close> and \<^verbatim>\<open>intercept\<close> are floats.
\<close>

definition compute_trendline :: "real list \<Rightarrow> real list" where
  "compute_trendline values =
     (let n = length values in
      if n = 0 then []
      else
        let xs = map int [0..<n];
            sum_x = sum_list xs;
            sum_y = sum_list values;
            sum_xx = sum_list (map (\<lambda>x. x * x) xs);
            sum_xy = sum_list (map (\<lambda>(x, y). of_int x * y) (zip xs values));
            denom = int n * sum_xx - sum_x * sum_x;
            slope = (if denom = 0 then 0
                     else (of_int (int n) * sum_xy - of_int sum_x * sum_y) / of_int denom);
            intercept = (sum_y - slope * of_int sum_x) / of_int (int n)
        in map (\<lambda>x. slope * of_int x + intercept) xs)"

text \<open>
  The ordinary least-squares coefficients as the specification writes them, over the
  index sequence \<open>0..n-1\<close>: \<open>Sx = \<Sum> i\<close>, \<open>Sxx = \<Sum> i\<^sup>2\<close>, \<open>Sy = \<Sum> v[i]\<close>,
  \<open>Sxy = \<Sum> i * v[i]\<close>, the denominator \<open>n * Sxx - Sx\<^sup>2\<close>, the slope (0 when the
  denominator is 0) and the intercept. These follow the specification's words and are
  compared with \<open>compute_trendline\<close> below.
\<close>

definition ols_Sx :: "nat \<Rightarrow> real" where
  "ols_Sx n = (\<Sum>i<n. real i)"

definition ols_Sxx :: "nat \<Rightarrow> real" where
  "ols_Sxx n = (\<Sum>i<n. (real i)\<^sup>2)"

definition ols_Sy :: "real list \<Rightarrow> real" where
  "ols_Sy v = (\<Sum>i<length v. v ! i)"

definition ols_Sxy :: "real list \<Rightarrow> real" where
  "ols_Sxy v = (\<Sum>i<length v. real i * v ! i)"

definition ols_denom :: "nat \<Rightarrow> real" where
  "ols_denom n = real n * ols_Sxx n - (ols_Sx n)\<^sup>2"

definition ols_slope :: "real list \<Rightarrow> real" where
  "ols_slope v =
     (if ols_denom (length v) = 0 then 0
      else (real (length v) * ols_Sxy v - ols_Sx (length v) * ols_Sy v) / ols_denom (length v))"

definition ols_intercept :: "real list \<Rightarrow> real" where
  "ols_intercept v = (ols_Sy v - ols_slope v * ols_Sx (length v)) / real (length v)"

section \<open>Errors and input data\<close>

text \<open>
  The script raises \<^verbatim>\<open>ValueError\<close> with a message of its own, and the built-ins it
  calls raise \<^verbatim>\<open>ValueError\<close> (\<^verbatim>\<open>min\<close> and \<^verbatim>\<open>max\<close> of an empty sequence, a string that
  \<^verbatim>\<open>float\<close> or \<^verbatim>\<open>datetime.fromisoformat\<close> cannot parse), \<^verbatim>\<open>TypeError\<close> (\<^verbatim>\<open>float(None)\<close>)
  or \<^verbatim>\<open>KeyError\<close> (a key that a dictionary does not hold). An exception is a value
  \<open>Inl e\<close> of the result.
\<close>

datatype error = ValueError string | TypeError | KeyError string

text \<open>
  The class of an exception, by its Python name: what an \<^verbatim>\<open>except\<close> clause tests.
\<close>

definition exception_class :: "error \<Rightarrow> string" where
  "exception_class e =
     (case e of
        ValueError _ \<Rightarrow> ''ValueError''
      | TypeError \<Rightarrow> ''TypeError''
      | KeyError _ \<Rightarrow> ''KeyError'')"

text \<open>
  \<^verbatim>\<open>PriceSeries\<close>: the dataclass with its two fields. \<^verbatim>\<open>prices\<close> is a \<^verbatim>\<open>dict\<close>, which
  iterates in insertion order: an association list of asset name and price list. The
  timestamps are only counted and formatted, so their type is a parameter.
\<close>

record 'd PriceSeries =
  dates :: "'d list"
  prices :: "(string \<times> real list) list"

section \<open>Double-precision arithmetic\<close>

text \<open>
  The statistics above are compared with formulas, and there a \<^verbatim>\<open>float\<close> is a real
  number. The coordinate mapping \<^verbatim>\<open>price_y\<close> is compared with itself at two nearby
  arguments, and there the rounding of every operation decides the result. So the
  arithmetic of its closure is that of IEEE 754 binary64, which Python's \<^verbatim>\<open>float\<close> is: a
  finite double is the real number it denotes, and every operation returns the exact
  result rounded to the nearest double, ties to the even significand.

  \<open>round_half_even\<close> rounds a real to the nearest integer, ties to even. \<open>binade x\<close> is the
  exponent \<open>e\<close> with \<open>2\<^sup>e \<le> x < 2\<^sup>e\<^sup>+\<^sup>1\<close> of a positive \<open>x\<close>, found by halving or doubling.
  \<open>expo\<close> is the exponent of the format, which is at least \<open>-1022\<close> (below that the
  doubles are subnormal and share one spacing), and \<open>ulp\<close> the spacing \<open>2\<^sup>e\<^sup>-\<^sup>5\<^sup>2\<close> of the
  doubles there.
\<close>

definition round_half_even :: "real \<Rightarrow> int" where
  "round_half_even x =
     (let f = \<lfloor>x\<rfloor>; d = x - of_int f
      in if d < 1 / 2 then f
         else if 1 / 2 < d then f + 1
         else if even f then f else f + 1)"

function bexp_hi :: "real \<Rightarrow> int" where
  "bexp_hi x = (if 2 \<le> x then bexp_hi (x / 2) + 1 else 0)"
  by pat_completeness auto
termination
proof (relation "measure (\<lambda>x. nat \<lfloor>x\<rfloor>)")
  show "wf (measure (\<lambda>x. nat \<lfloor>x\<rfloor>))" by simp
next
  fix x :: real
  assume "2 \<le> x"
  then have "\<lfloor>x / 2\<rfloor> < \<lfloor>x\<rfloor>" by linarith
  moreover from \<open>2 \<le> x\<close> have "0 < \<lfloor>x\<rfloor>" by linarith
  ultimately show "(x / 2, x) \<in> measure (\<lambda>x. nat \<lfloor>x\<rfloor>)" by simp
qed

function bexp_lo :: "real \<Rightarrow> int" where
  "bexp_lo x = (if 0 < x \<and> x < 1 then bexp_lo (2 * x) - 1 else 0)"
  by pat_completeness auto
termination
proof (relation "measure (\<lambda>x. nat \<lfloor>1 / x\<rfloor>)")
  show "wf (measure (\<lambda>x. nat \<lfloor>1 / x\<rfloor>))" by simp
next
  fix x :: real
  assume a: "0 < x \<and> x < 1"
  define t where "t = 1 / x"
  from a have "1 < t" by (simp add: t_def)
  then have "0 < \<lfloor>t\<rfloor>" by linarith
  moreover have "\<lfloor>t / 2\<rfloor> < \<lfloor>t\<rfloor>"
  proof (cases "2 \<le> t")
    case True
    then show ?thesis by linarith
  next
    case False
    with \<open>1 < t\<close> have "\<lfloor>t / 2\<rfloor> = 0" "\<lfloor>t\<rfloor> = 1" by linarith+
    then show ?thesis by simp
  qed
  moreover have h: "1 / (2 * x) = t / 2" by (simp add: t_def)
  ultimately have "nat \<lfloor>1 / (2 * x)\<rfloor> < nat \<lfloor>1 / x\<rfloor>"
    unfolding h t_def [symmetric] by linarith
  then show "(2 * x, x) \<in> measure (\<lambda>x. nat \<lfloor>1 / x\<rfloor>)"
    by simp
qed

declare bexp_hi.simps [simp del] bexp_lo.simps [simp del]

definition binade :: "real \<Rightarrow> int" where
  "binade x = (if 1 \<le> x then bexp_hi x else bexp_lo x)"

definition expo :: "real \<Rightarrow> int" where
  "expo x = max (binade \<bar>x\<bar>) (- 1022)"

definition ulp :: "real \<Rightarrow> real" where
  "ulp x = 2 powi (expo x - 52)"

text \<open>
  \<open>round64_val x\<close> is \<open>x\<close> rounded to the nearest multiple of the spacing at \<open>x\<close>, and
  \<open>round64 x\<close> is the double an operation with exact result \<open>x\<close> returns. It is \<open>None\<close> when
  the rounded value is beyond the largest double: Python then returns an infinity, which
  like NaN is no value of this model. The four operations follow; \<^verbatim>\<open>/\<close> by zero raises
  \<^verbatim>\<open>ZeroDivisionError\<close> in Python and is \<open>None\<close> as well.
\<close>

definition round64_val :: "real \<Rightarrow> real" where
  "round64_val x = of_int (round_half_even (x / ulp x)) * ulp x"

definition round64 :: "real \<Rightarrow> real option" where
  "round64 x = (let r = round64_val x in if \<bar>r\<bar> < 2 ^ 1024 then Some r else None)"

definition fl_add :: "real \<Rightarrow> real \<Rightarrow> real option" where
  "fl_add x y = round64 (x + y)"




section \<open>Rendering: the two vertical scales\<close>

text \<open>
  Python's \<^verbatim>\<open>min\<close> and \<^verbatim>\<open>max\<close> of a list raise \<^verbatim>\<open>ValueError\<close> on the empty list.
  \<open>gen_each\<close> is a generator expression \<^verbatim>\<open>f(x) for x in xs\<close> consumed to its end: the
  first element on which \<open>f\<close> raises ends it with that exception.
\<close>

fun py_min :: "real list \<Rightarrow> error + real" where
  "py_min [] = Inl (ValueError ''min() arg is an empty sequence'')"
| "py_min (x # xs) = Inr (fold min xs x)"

fun py_max :: "real list \<Rightarrow> error + real" where
  "py_max [] = Inl (ValueError ''max() arg is an empty sequence'')"
| "py_max (x # xs) = Inr (fold max xs x)"


text \<open>
  The canvas constants of \<^verbatim>\<open>render_svg\<close>. They are Python \<^verbatim>\<open>int\<close>s that enter only
  float arithmetic, where the conversion is exact.
\<close>

definition width :: real where "width = 1000"
definition margin_left :: real where "margin_left = 90"
definition margin_right :: real where "margin_right = 110"
definition plot_width :: real where "plot_width = width - margin_left - margin_right"



text \<open>
  The right scale, lines 165 to 177: the loop over the assets folds the minimum and the
  maximum of each fluctuation series into the accumulators \<^verbatim>\<open>fluct_min\<close> and
  \<^verbatim>\<open>fluct_max\<close>, both \<^verbatim>\<open>0.0\<close> at the start (\<open>fluct_loop\<close>, called with \<open>(0, 0)\<close>);
  then the two assignments under \<^verbatim>\<open>if fluct_min == fluct_max\<close>, then the padding.
\<close>

fun fluct_loop :: "(string \<times> real list) list \<Rightarrow> real \<times> real \<Rightarrow> error + (real \<times> real)" where
  "fluct_loop [] acc = Inr acc"
| "fluct_loop ((asset, values) # rest) (fluct_min, fluct_max) =
     (let fluct = compute_fluctuation values in
      case py_min fluct of
        Inl e \<Rightarrow> Inl e
      | Inr lo \<Rightarrow>
     (case py_max fluct of
        Inl e \<Rightarrow> Inl e
      | Inr hi \<Rightarrow> fluct_loop rest (min fluct_min lo, max fluct_max hi)))"

definition fluct_scale :: "(string \<times> real list) list \<Rightarrow> error + (real \<times> real)" where
  "fluct_scale ps =
     (case fluct_loop ps (0, 0) of
        Inl e \<Rightarrow> Inl e
      | Inr (fluct_min, fluct_max) \<Rightarrow>
          let (fluct_min, fluct_max) =
                (if fluct_min = fluct_max then (fluct_min - 1, fluct_max + 1)
                 else (fluct_min, fluct_max));
              fluct_padding = (fluct_max - fluct_min) * 0.05
          in Inr (fluct_min - fluct_padding, fluct_max + fluct_padding))"

text \<open>
  The values the specification calls the fluctuation series of the assets: every
  element of every asset's \<open>compute_fluctuation\<close>.
\<close>

definition fluct_values :: "(string \<times> real list) list \<Rightarrow> real set" where
  "fluct_values ps = (\<Union>(asset, values) \<in> set ps. set (compute_fluctuation values))"


section \<open>Rendering: the date labels\<close>

text \<open>
  \<^verbatim>\<open>range(i, stop, step)\<close> for a positive step (the step below is at least 1), and
  the indices at which lines 228 to 234 emit a date label: those of the \<^verbatim>\<open>for\<close> loop,
  then the last index \<^verbatim>\<open>count - 1\<close> (the script's \<^verbatim>\<open>xs[-1]\<close>) when
  \<^verbatim>\<open>(count - 1) % step != 0\<close>. Python's \<^verbatim>\<open>%\<close> is taken on \<^typ>\<open>int\<close>, where \<open>mod\<close>
  agrees with it for a positive modulus.
\<close>

function range_step :: "nat \<Rightarrow> nat \<Rightarrow> nat \<Rightarrow> nat list" where
  "range_step i stop step =
     (if 0 < step \<and> i < stop then i # range_step (i + step) stop step else [])"
  by pat_completeness auto
termination
  by (relation "measure (\<lambda>(i, stop, step). stop - i)") auto

definition label_indices :: "nat \<Rightarrow> nat list" where
  "label_indices count =
     (let label_count = min 6 count;
          step = (if label_count > 1 then max 1 (count div (label_count - 1)) else 1)
      in range_step 0 count step @
         (if (int count - 1) mod int step \<noteq> 0 then [count - 1] else []))"

text \<open>
  The stride the specification names for the date labels: \<open>max(1, n // 5)\<close>.
\<close>

definition label_stride :: "nat \<Rightarrow> nat" where
  "label_stride n = max 1 (n div 5)"

section \<open>Number formatting\<close>

text \<open>
  Python's format specification \<^verbatim>\<open>,.Nf\<close>, which the f-strings of \<^verbatim>\<open>_format_currency\<close>
  use: the value rounded to \<open>N\<close> decimals, ties to even, the digits of the whole part in
  groups of three separated by commas, a minus sign for a negative value, and a decimal
  point followed by exactly \<open>N\<close> digits when \<open>N > 0\<close>. It is a built-in of the language,
  written out here on the reals so that the formatter can be run.
\<close>

definition digit_char :: "nat \<Rightarrow> char" where
  "digit_char d = ''0123456789'' ! d"

function nat_digits :: "nat \<Rightarrow> string" where
  "nat_digits n =
     (if n < 10 then [digit_char n] else nat_digits (n div 10) @ [digit_char (n mod 10)])"
  by pat_completeness auto
termination
  by (relation "measure id") auto

declare nat_digits.simps [simp del]

function group_thousands :: "string \<Rightarrow> string" where
  "group_thousands ds =
     (if length ds \<le> 3 then ds
      else group_thousands (take (length ds - 3) ds) @ '','' @ drop (length ds - 3) ds)"
  by pat_completeness auto
termination
  by (relation "measure length") auto

declare group_thousands.simps [simp del]

definition zero_pad :: "nat \<Rightarrow> string \<Rightarrow> string" where
  "zero_pad p ds = replicate (p - length ds) CHR ''0'' @ ds"

definition format_comma_f :: "nat \<Rightarrow> real \<Rightarrow> string" where
  "format_comma_f p v =
     (let scaled = nat (round_half_even (\<bar>v\<bar> * 10 ^ p));
          whole = scaled div 10 ^ p;
          frac = scaled mod 10 ^ p
      in (if v < 0 then ''-'' else '''') @
         group_thousands (nat_digits whole) @
         (if p = 0 then '''' else ''.'' @ zero_pad p (nat_digits frac)))"

text \<open>
  \<^verbatim>\<open>_format_currency\<close> (a name cannot begin with an underscore here).
\<close>

definition format_currency :: "real \<Rightarrow> string" where
  "format_currency value =
     (if value \<ge> 1000 \<or> value \<le> - 1000 then ''$'' @ format_comma_f 0 value
      else ''$'' @ format_comma_f 2 value)"

section \<open>Loading the price data\<close>

text \<open>
  \<^verbatim>\<open>load_price_data\<close> reads the file through \<^verbatim>\<open>csv.DictReader\<close>. The input of the model
  is what \<^verbatim>\<open>csv.reader\<close> yields for the file: its records, each a list of strings, the
  first being the header. \<^verbatim>\<open>reader.fieldnames or []\<close> is the first record, or the empty
  list for an empty file. \<^verbatim>\<open>DictReader\<close> skips every empty record after the header.
\<close>

definition ASSETS :: "string list" where
  "ASSETS = [''ABTC'', ''BTC'']"

definition fieldnames :: "string list list \<Rightarrow> string list" where
  "fieldnames records = (case records of [] \<Rightarrow> [] | header # _ \<Rightarrow> header)"

definition data_rows :: "string list list \<Rightarrow> string list list" where
  "data_rows records = filter (\<lambda>row. row \<noteq> []) (drop 1 records)"

text \<open>
  The dictionary \<^verbatim>\<open>DictReader\<close> builds for a record: \<^verbatim>\<open>dict(zip(fieldnames, row))\<close>, then
  \<^verbatim>\<open>None\<close> for every field name beyond the length of the record. The later of two equal
  field names wins, so the association list is reversed for the lookup. A cell is
  \<open>Some s\<close> for a string and \<open>None\<close> for Python's \<^verbatim>\<open>None\<close>.
\<close>

definition row_dict :: "string list \<Rightarrow> string list \<Rightarrow> (string \<times> string option) list" where
  "row_dict names row =
     rev (zip names (map Some row @ replicate (length names - length row) None))"

definition getitem :: "(string \<times> 'v) list \<Rightarrow> string \<Rightarrow> error + 'v" where
  "getitem d key = (case map_of d key of None \<Rightarrow> Inl (KeyError key) | Some v \<Rightarrow> Inr v)"

fun join :: "string \<Rightarrow> string list \<Rightarrow> string" where
  "join sep [] = []"
| "join sep [x] = x"
| "join sep (x # y # ys) = x @ sep @ join sep (y # ys)"

text \<open>
  \<^verbatim>\<open>datetime.fromisoformat\<close> and \<^verbatim>\<open>float\<close> are parameters of the model (functions from a
  string to a value or an exception); both raise \<^verbatim>\<open>TypeError\<close> on \<^verbatim>\<open>None\<close>.
  \<open>read_assets\<close> is the inner loop over \<^verbatim>\<open>ASSETS\<close>, \<open>read_rows\<close> the loop over the rows.
\<close>

definition parse_cell :: "(string \<Rightarrow> error + 'a) \<Rightarrow> string option \<Rightarrow> error + 'a" where
  "parse_cell parse cell = (case cell of None \<Rightarrow> Inl TypeError | Some s \<Rightarrow> parse s)"

definition append_price :: "string \<Rightarrow> real \<Rightarrow> (string \<times> real list) list \<Rightarrow> (string \<times> real list) list" where
  "append_price asset v ps = map (\<lambda>(a, vs). if a = asset then (a, vs @ [v]) else (a, vs)) ps"

fun read_assets ::
  "(string \<Rightarrow> error + real) \<Rightarrow> (string \<times> string option) list \<Rightarrow> string list \<Rightarrow>
     (string \<times> real list) list \<Rightarrow> error + (string \<times> real list) list" where
  "read_assets py_float row [] ps = Inr ps"
| "read_assets py_float row (asset # rest) ps =
     (case getitem row asset of
        Inl e \<Rightarrow> Inl e
      | Inr cell \<Rightarrow>
     (case parse_cell py_float cell of
        Inl e \<Rightarrow> Inl e
      | Inr v \<Rightarrow> read_assets py_float row rest (append_price asset v ps)))"

fun read_rows ::
  "(string \<Rightarrow> error + 'd) \<Rightarrow> (string \<Rightarrow> error + real) \<Rightarrow> string list \<Rightarrow> string list list \<Rightarrow>
     'd list \<times> (string \<times> real list) list \<Rightarrow> error + ('d list \<times> (string \<times> real list) list)" where
  "read_rows fromisoformat py_float names [] acc = Inr acc"
| "read_rows fromisoformat py_float names (r # rs) (ds, ps) =
     (let row = row_dict names r in
      case getitem row ''date'' of
        Inl e \<Rightarrow> Inl e
      | Inr cell \<Rightarrow>
     (case parse_cell fromisoformat cell of
        Inl e \<Rightarrow> Inl e
      | Inr date \<Rightarrow>
     (case read_assets py_float row ASSETS ps of
        Inl e \<Rightarrow> Inl e
      | Inr ps' \<Rightarrow> read_rows fromisoformat py_float names rs (ds @ [date], ps'))))"

text \<open>
  \<^verbatim>\<open>load_price_data\<close>. \<^verbatim>\<open>sorted(missing)\<close> lists the missing assets in ascending order,
  which is the order of \<^verbatim>\<open>ASSETS\<close> itself.
\<close>

definition load_price_data ::
  "(string \<Rightarrow> error + 'd) \<Rightarrow> (string \<Rightarrow> error + real) \<Rightarrow> string list list \<Rightarrow>
     error + 'd PriceSeries" where
  "load_price_data fromisoformat py_float records =
     (let names = fieldnames records;
          missing = filter (\<lambda>asset. asset \<notin> set names) ASSETS
      in if ''date'' \<notin> set names
         then Inl (ValueError ''CSV must contain a 'date' column'')
         else if missing \<noteq> []
         then Inl (ValueError (''CSV is missing expected asset columns: '' @ join '', '' missing))
         else
           case read_rows fromisoformat py_float names (data_rows records)
                  ([], map (\<lambda>asset. (asset, [])) ASSETS) of
             Inl e \<Rightarrow> Inl e
           | Inr (ds, ps) \<Rightarrow>
               if ds = [] then Inl (ValueError ''No rows found in price CSV'')
               else Inr \<lparr>dates = ds, prices = ps\<rparr>)"

section \<open>Properties of the statistics\<close>

lemma length_compute_fluctuation:
  "length (compute_fluctuation values) = length values"
  by (cases "values") (simp_all add: compute_fluctuation_def)

lemma compute_fluctuation_nth_0:
  "values \<noteq> [] \<Longrightarrow> compute_fluctuation values ! 0 = 0"
  by (simp add: compute_fluctuation_def)

lemma compute_fluctuation_nth_Suc:
  assumes "Suc i < length values"
  shows "compute_fluctuation values ! Suc i =
           (if values ! i = 0 then 0
            else ((values ! Suc i - values ! i) / (values ! i)) * 100)"
proof -
  from assms have ne: "values \<noteq> []" by auto
  from assms have len: "i < length (zip values (drop 1 values))" by simp
  have "compute_fluctuation values ! Suc i
          = fluctuation_step (zip values (drop 1 values) ! i)"
    using ne len by (simp add: compute_fluctuation_def)
  also have "zip values (drop 1 values) ! i = (values ! i, values ! Suc i)"
    using assms by simp
  finally show ?thesis by (simp add: fluctuation_step_def)
qed

text \<open>
  Claim C2. For a non-empty list \<open>v\<close>, \<open>compute_fluctuation v\<close> has the length of \<open>v\<close>,
  its first element is 0, and its element at every index \<open>i \<ge> 1\<close> is
  \<open>((v[i] - v[i-1]) / v[i-1]) * 100\<close> when \<open>v[i-1]\<close> is not zero and 0 when it is;
  on \<open>[100, 100, 50, 0, 10]\<close> the result is \<open>[0, 0, -50, -100, 0]\<close>.
\<close>

theorem compute_fluctuation_spec:
  "(v \<noteq> [] \<longrightarrow>
      length (compute_fluctuation v) = length v \<and>
      compute_fluctuation v ! 0 = 0 \<and>
      (\<forall>i. 1 \<le> i \<and> i < length v \<longrightarrow>
         compute_fluctuation v ! i =
           (if v ! (i - 1) \<noteq> 0 then ((v ! i - v ! (i - 1)) / v ! (i - 1)) * 100 else 0))) \<and>
   compute_fluctuation [100, 100, 50, 0, 10] = [0, 0, -50, -100, 0]"
proof (intro conjI impI allI)
  show "length (compute_fluctuation v) = length v"
    by (rule length_compute_fluctuation)
next
  assume "v \<noteq> []"
  then show "compute_fluctuation v ! 0 = 0"
    by (rule compute_fluctuation_nth_0)
next
  fix i
  assume "1 \<le> i \<and> i < length v"
  then obtain j where j: "i = Suc j" "Suc j < length v"
    by (cases i) auto
  show "compute_fluctuation v ! i =
          (if v ! (i - 1) \<noteq> 0 then ((v ! i - v ! (i - 1)) / v ! (i - 1)) * 100 else 0)"
    using compute_fluctuation_nth_Suc [OF j(2)] j(1) by simp
next
  show "compute_fluctuation [100, 100, 50, 0, 10] = [0, 0, -50, -100, 0]"
    by (simp add: compute_fluctuation_def fluctuation_step_def)
qed

theorem compute_fluctuation_spec_witness:
  "length (compute_fluctuation [200, 250, 0, 7]) = 4 \<and>
   compute_fluctuation [200, 250, 0, 7] ! 0 = 0 \<and>
   compute_fluctuation [200, 250, 0, 7] ! 1 = 25 \<and>
   compute_fluctuation [200, 250, 0, 7] ! 2 = - 100 \<and>
   compute_fluctuation [200, 250, 0, 7] ! 3 = 0"
proof -
  let ?v = "[200, 250, 0, 7] :: real list"
  have ne: "?v \<noteq> []" by simp
  note spec = compute_fluctuation_spec [of ?v, THEN conjunct1, rule_format, OF ne]
  have len: "length (compute_fluctuation ?v) = 4"
    using spec by simp
  have first: "compute_fluctuation ?v ! 0 = 0"
    using spec by blast
  have at: "\<And>i. 1 \<le> i \<and> i < length ?v \<Longrightarrow>
      compute_fluctuation ?v ! i =
        (if ?v ! (i - 1) \<noteq> 0 then ((?v ! i - ?v ! (i - 1)) / ?v ! (i - 1)) * 100 else 0)"
    using spec by blast
  have "compute_fluctuation ?v ! 1 = 25" using at [of 1] by simp
  moreover have "compute_fluctuation ?v ! 2 = - 100" using at [of 2] by simp
  moreover have "compute_fluctuation ?v ! 3 = 0" using at [of 3] by simp
  ultimately show ?thesis using len first by blast
qed

lemma compute_relative_change_zero:
  "v \<noteq> [] \<Longrightarrow> v ! 0 = 0 \<Longrightarrow> compute_relative_change v = replicate (length v) 0"
  by (cases v) (simp_all add: compute_relative_change_def map_replicate_const)

lemma compute_relative_change_nonzero:
  "v \<noteq> [] \<Longrightarrow> v ! 0 \<noteq> 0 \<Longrightarrow>
     compute_relative_change v = map (\<lambda>x. ((x - v ! 0) / v ! 0) * 100) v"
  by (cases v) (simp_all add: compute_relative_change_def)

text \<open>
  Claim C3. For a non-empty list \<open>v\<close>, \<open>compute_relative_change v\<close> is the all-zero list
  of the length of \<open>v\<close> when \<open>v[0]\<close> is 0, and otherwise the list of the same length whose
  element at every index \<open>i\<close> is \<open>((v[i] - v[0]) / v[0]) * 100\<close>; on \<open>[0, 5, 10]\<close> the
  result is \<open>[0, 0, 0]\<close> and on \<open>[50, 50, 75, 25]\<close> it is \<open>[0, 0, 50, -50]\<close>.
\<close>

theorem compute_relative_change_spec:
  "(v \<noteq> [] \<longrightarrow>
      (v ! 0 = 0 \<longrightarrow> compute_relative_change v = replicate (length v) 0) \<and>
      (v ! 0 \<noteq> 0 \<longrightarrow>
         length (compute_relative_change v) = length v \<and>
         (\<forall>i. i < length v \<longrightarrow>
            compute_relative_change v ! i = ((v ! i - v ! 0) / v ! 0) * 100))) \<and>
   compute_relative_change [0, 5, 10] = [0, 0, 0] \<and>
   compute_relative_change [50, 50, 75, 25] = [0, 0, 50, -50]"
proof (intro conjI impI allI)
  assume "v \<noteq> []" "v ! 0 = 0"
  then show "compute_relative_change v = replicate (length v) 0"
    by (rule compute_relative_change_zero)
next
  assume "v \<noteq> []" "v ! 0 \<noteq> 0"
  then show "length (compute_relative_change v) = length v"
    by (simp add: compute_relative_change_nonzero)
next
  fix i
  assume "v \<noteq> []" "v ! 0 \<noteq> 0" "i < length v"
  then show "compute_relative_change v ! i = ((v ! i - v ! 0) / v ! 0) * 100"
    by (simp add: compute_relative_change_nonzero)
next
  show "compute_relative_change [0, 5, 10] = [0, 0, 0]"
    by (simp add: compute_relative_change_def)
next
  show "compute_relative_change [50, 50, 75, 25] = [0, 0, 50, -50]"
    by (simp add: compute_relative_change_def)
qed

theorem compute_relative_change_spec_witness:
  "compute_relative_change [0, 3] = [0, 0] \<and>
   length (compute_relative_change [40, 50, 30]) = 3 \<and>
   compute_relative_change [40, 50, 30] ! 1 = 25 \<and>
   compute_relative_change [40, 50, 30] ! 2 = - 25"
proof -
  let ?z = "[0, 3] :: real list" and ?v = "[40, 50, 30] :: real list"
  have "compute_relative_change ?z = replicate (length ?z) 0"
    using compute_relative_change_spec [of ?z] by simp
  then have zero: "compute_relative_change ?z = [0, 0]" by simp
  have ne: "?v \<noteq> []" and nz: "?v ! 0 \<noteq> 0" by simp_all
  note spec = compute_relative_change_spec
    [of ?v, THEN conjunct1, rule_format, OF ne, THEN conjunct2, rule_format, OF nz]
  have len: "length (compute_relative_change ?v) = 3"
    using spec by simp
  have at: "\<And>i. i < length ?v \<Longrightarrow>
      compute_relative_change ?v ! i = ((?v ! i - ?v ! 0) / ?v ! 0) * 100"
    using spec by blast
  have "compute_relative_change ?v ! 1 = 25" using at [of 1] by simp
  moreover have "compute_relative_change ?v ! 2 = - 25" using at [of 2] by simp
  ultimately show ?thesis using zero len by blast
qed

subsection \<open>The trendline\<close>

lemma sum_list_upt_conv: "sum_list (map f [0..<n]) = (\<Sum>i<n. f i)"
  by (simp add: interv_sum_list_conv_sum_set_nat atLeast0LessThan)

lemma code_sum_x: "of_int (sum_list (map int [0..<n])) = ols_Sx n"
  unfolding ols_Sx_def by (induction n) simp_all

lemma code_sum_xx: "of_int (sum_list (map (\<lambda>x. x * x) (map int [0..<n]))) = ols_Sxx n"
  unfolding ols_Sxx_def by (induction n) (simp_all add: power2_eq_square)

lemma code_sum_y: "sum_list v = ols_Sy v"
  unfolding ols_Sy_def by (simp add: sum_list_sum_nth atLeast0LessThan)

lemma zip_index: "zip (map int [0..<length v]) v = map (\<lambda>i. (int i, v ! i)) [0..<length v]"
  by (rule nth_equalityI) simp_all

lemma code_sum_xy:
  "sum_list (map (\<lambda>(x, y). of_int x * y) (zip (map int [0..<length v]) v)) = ols_Sxy v"
  unfolding ols_Sxy_def zip_index by (simp add: o_def sum_list_upt_conv)

lemma two_ols_Sx: "2 * ols_Sx n = real n * (real n - 1)"
  unfolding ols_Sx_def by (induction n) (simp_all add: algebra_simps)

lemma six_ols_Sxx: "6 * ols_Sxx n = (real n - 1) * real n * (2 * real n - 1)"
  unfolding ols_Sxx_def by (induction n) (simp_all add: algebra_simps power2_eq_square)

lemma twelve_ols_denom: "12 * ols_denom n = (real n)\<^sup>2 * ((real n)\<^sup>2 - 1)"
proof -
  have "12 * ols_denom n = 2 * real n * (6 * ols_Sxx n) - 3 * (2 * ols_Sx n)\<^sup>2"
    by (simp add: ols_denom_def algebra_simps power2_eq_square)
  also have "\<dots> = (real n)\<^sup>2 * ((real n)\<^sup>2 - 1)"
    unfolding two_ols_Sx six_ols_Sxx by (simp add: algebra_simps power2_eq_square)
  finally show ?thesis .
qed

lemma ols_denom_zero_iff: "ols_denom n = 0 \<longleftrightarrow> n \<le> 1"
proof -
  have "ols_denom n = 0 \<longleftrightarrow> (real n)\<^sup>2 * ((real n)\<^sup>2 - 1) = 0"
    using twelve_ols_denom [of n] by auto
  also have "\<dots> \<longleftrightarrow> n = 0 \<or> (real n)\<^sup>2 = 1"
    by auto
  also have "\<dots> \<longleftrightarrow> n = 0 \<or> n = 1"
    by (simp add: power2_eq_1_iff)
  also have "\<dots> \<longleftrightarrow> n \<le> 1" by auto
  finally show ?thesis .
qed

lemma compute_trendline_ols:
  assumes "v \<noteq> []"
  shows "compute_trendline v =
           map (\<lambda>i. ols_slope v * real i + ols_intercept v) [0..<length v]"
proof -
  define n where "n = length v"
  define xs where "xs = map int [0..<n]"
  define sum_x where "sum_x = sum_list xs"
  define sum_y where "sum_y = sum_list v"
  define sum_xx where "sum_xx = sum_list (map (\<lambda>x. x * x) xs)"
  define sum_xy where "sum_xy = sum_list (map (\<lambda>(x, y). of_int x * y) (zip xs v))"
  define denom where "denom = int n * sum_xx - sum_x * sum_x"
  define slope :: real where
    "slope = (if denom = 0 then 0
              else (of_int (int n) * sum_xy - of_int sum_x * sum_y) / of_int denom)"
  define intercept where "intercept = (sum_y - slope * of_int sum_x) / of_int (int n)"
  from assms have n0: "(n = 0) = False" by (simp add: n_def)
  have code: "compute_trendline v = map (\<lambda>x. slope * of_int x + intercept) xs"
    unfolding compute_trendline_def Let_def intercept_def slope_def denom_def sum_xy_def
      sum_xx_def sum_y_def sum_x_def xs_def n_def [symmetric]
    by (simp only: n0 if_False)
  have sx: "of_int sum_x = ols_Sx n"
    unfolding sum_x_def xs_def by (rule code_sum_x)
  have sxx: "of_int sum_xx = ols_Sxx n"
    unfolding sum_xx_def xs_def by (rule code_sum_xx)
  have sy: "sum_y = ols_Sy v"
    unfolding sum_y_def by (rule code_sum_y)
  have sxy: "sum_xy = ols_Sxy v"
    unfolding sum_xy_def xs_def n_def by (rule code_sum_xy)
  have dn: "of_int denom = ols_denom n"
    unfolding denom_def ols_denom_def sx [symmetric] sxx [symmetric]
    by (simp add: power2_eq_square)
  have dz: "(denom = 0) = (ols_denom n = 0)"
    unfolding dn [symmetric] by simp
  have sl: "slope = ols_slope v"
    unfolding slope_def ols_slope_def dz n_def [symmetric] sx sy sxy dn by simp
  have ic: "intercept = ols_intercept v"
    unfolding intercept_def ols_intercept_def sl sx sy n_def [symmetric] by simp
  show ?thesis
    unfolding code sl ic xs_def n_def by (simp add: o_def)
qed


lemma ols_degenerate:
  assumes "v \<noteq> []" "ols_denom (length v) = 0"
  shows "ols_slope v = 0" "ols_intercept v = sum_list v / real (length v)"
  using assms by (simp_all add: ols_slope_def ols_intercept_def code_sum_y)

text \<open>
  Claim C1. \<open>compute_trendline\<close> returns the empty list on the empty list; on a
  non-empty \<open>v\<close> of length \<open>n\<close> it returns the fitted values \<open>slope * i + intercept\<close> for
  \<open>i\<close> in \<open>0..n-1\<close>, where \<open>slope = (n * Sxy - Sx * Sy) / (n * Sxx - Sx\<^sup>2)\<close> and
  \<open>intercept = (Sy - slope * Sx) / n\<close> are the least-squares coefficients over the index
  sequence; the denominator \<open>n * Sxx - Sx\<^sup>2\<close> is zero only when \<open>n \<le> 1\<close>, and then the
  slope is 0 and the intercept is the mean of \<open>v\<close>.
\<close>

theorem compute_trendline_spec:
  "compute_trendline [] = [] \<and>
   (v \<noteq> [] \<longrightarrow>
      compute_trendline v = map (\<lambda>i. ols_slope v * real i + ols_intercept v) [0..<length v] \<and>
      (ols_denom (length v) \<noteq> 0 \<longrightarrow>
         ols_slope v = (real (length v) * ols_Sxy v - ols_Sx (length v) * ols_Sy v)
                         / (real (length v) * ols_Sxx (length v) - (ols_Sx (length v))\<^sup>2)) \<and>
      ols_intercept v = (ols_Sy v - ols_slope v * ols_Sx (length v)) / real (length v) \<and>
      (ols_denom (length v) = 0 \<longleftrightarrow> length v \<le> 1) \<and>
      (ols_denom (length v) = 0 \<longrightarrow>
         ols_slope v = 0 \<and> ols_intercept v = sum_list v / real (length v)))"
proof (intro conjI impI)
  show "compute_trendline [] = []"
    by (simp add: compute_trendline_def)
next
  assume "v \<noteq> []"
  then show "compute_trendline v =
      map (\<lambda>i. ols_slope v * real i + ols_intercept v) [0..<length v]"
    by (rule compute_trendline_ols)
next
  assume "ols_denom (length v) \<noteq> 0"
  then show "ols_slope v = (real (length v) * ols_Sxy v - ols_Sx (length v) * ols_Sy v)
                         / (real (length v) * ols_Sxx (length v) - (ols_Sx (length v))\<^sup>2)"
    by (simp add: ols_slope_def ols_denom_def)
next
  show "ols_intercept v = (ols_Sy v - ols_slope v * ols_Sx (length v)) / real (length v)"
    by (simp add: ols_intercept_def)
next
  show "ols_denom (length v) = 0 \<longleftrightarrow> length v \<le> 1"
    by (rule ols_denom_zero_iff)
next
  assume "v \<noteq> []" "ols_denom (length v) = 0"
  then show "ols_slope v = 0" by (rule ols_degenerate)
next
  assume "v \<noteq> []" "ols_denom (length v) = 0"
  then show "ols_intercept v = sum_list v / real (length v)" by (rule ols_degenerate)
qed

lemma upt_3: "[0..<3] = [0, 1, 2]"
  by (simp add: upt_rec)

theorem compute_trendline_spec_witness:
  "compute_trendline [1, 2, 4] = [5 / 6, 7 / 3, 23 / 6] \<and>
   ols_slope [1, 2, 4] = 3 / 2 \<and> ols_intercept [1, 2, 4] = 5 / 6 \<and>
   compute_trendline [4] = [4] \<and> ols_denom 1 = 0 \<and>
   ols_slope [4] = 0 \<and> ols_intercept [4] = 4"
proof -
  let ?v = "[1, 2, 4] :: real list" and ?w = "[4] :: real list"
  have sums: "ols_Sx 3 = 3" "ols_Sxx 3 = 5" "ols_Sy ?v = 7" "ols_Sxy ?v = 10"
    by (simp_all add: ols_Sx_def ols_Sxx_def ols_Sy_def ols_Sxy_def eval_nat_numeral)
  have dn: "ols_denom 3 = 6"
    by (simp add: ols_denom_def sums)
  have ne: "?v \<noteq> []" and len: "length ?v = 3" by simp_all
  note spec = compute_trendline_spec
    [of ?v, THEN conjunct2, rule_format, OF ne, unfolded len]
  have sl: "ols_slope ?v = 3 / 2"
    using spec dn by (simp add: sums)
  have ic: "ols_intercept ?v = 5 / 6"
    using spec by (simp add: sums sl)
  have tl: "compute_trendline ?v = [5 / 6, 7 / 3, 23 / 6]"
    using spec by (simp add: sl ic upt_3)
  have ne': "?w \<noteq> []" and len': "length ?w = 1" by simp_all
  note spec' = compute_trendline_spec
    [of ?w, THEN conjunct2, rule_format, OF ne', unfolded len']
  have dz: "ols_denom 1 = 0"
    using spec' by simp
  have deg: "ols_slope ?w = 0 \<and> ols_intercept ?w = sum_list ?w / real 1"
    using spec' dz by blast
  then have sl': "ols_slope ?w = 0" and ic': "ols_intercept ?w = 4"
    by simp_all
  have tl': "compute_trendline ?w = [4]"
    using spec' by (simp add: sl' ic')
  show ?thesis using tl sl ic tl' dz sl' ic' by blast
qed

section \<open>Properties of the fluctuation scale\<close>

lemma py_min_Min: "xs \<noteq> [] \<Longrightarrow> py_min xs = Inr (Min (set xs))"
  by (cases xs) (simp_all add: Min.set_eq_fold [symmetric])

lemma py_max_Max: "xs \<noteq> [] \<Longrightarrow> py_max xs = Inr (Max (set xs))"
  by (cases xs) (simp_all add: Max.set_eq_fold [symmetric])



lemma compute_fluctuation_Nil_iff: "compute_fluctuation vs = [] \<longleftrightarrow> vs = []"
  by (simp add: compute_fluctuation_def)

lemma zero_in_compute_fluctuation: "vs \<noteq> [] \<Longrightarrow> 0 \<in> set (compute_fluctuation vs)"
  by (simp add: compute_fluctuation_def)

lemma fluct_loop_Min_Max:
  assumes "\<forall>(asset, values) \<in> set ps. values \<noteq> []"
  shows "fluct_loop ps (lo, hi) =
           Inr (Min (insert lo (fluct_values ps)), Max (insert hi (fluct_values ps)))"
  using assms
proof (induction ps arbitrary: lo hi)
  case Nil
  show ?case by (simp add: fluct_values_def)
next
  case (Cons p ps)
  obtain asset vs where p: "p = (asset, vs)" by (cases p)
  let ?f = "compute_fluctuation vs"
  from Cons.prems p have ne: "?f \<noteq> []" and rest: "\<forall>(asset, values) \<in> set ps. values \<noteq> []"
    by (auto simp: compute_fluctuation_Nil_iff)
  have fv: "fluct_values (p # ps) = set ?f \<union> fluct_values ps"
    by (simp add: fluct_values_def p)
  have fin: "finite (fluct_values ps)"
    by (auto simp: fluct_values_def)
  have step: "fluct_loop (p # ps) (lo, hi) =
      fluct_loop ps (min lo (Min (set ?f)), max hi (Max (set ?f)))"
    by (simp add: p Let_def py_min_Min [OF ne] py_max_Max [OF ne])
  have mn: "Min (insert (min lo (Min (set ?f))) (fluct_values ps))
          = Min (insert lo (set ?f \<union> fluct_values ps))"
    using ne fin by (cases "fluct_values ps = {}") (simp_all add: Min.union min.assoc)
  have mx: "Max (insert (max hi (Max (set ?f))) (fluct_values ps))
          = Max (insert hi (set ?f \<union> fluct_values ps))"
    using ne fin by (cases "fluct_values ps = {}") (simp_all add: Max.union max.assoc)
  show ?case
    unfolding step Cons.IH [OF rest] fv mn mx ..
qed

lemma fluct_values_finite: "finite (fluct_values ps)"
  by (auto simp: fluct_values_def)

lemma zero_in_fluct_values:
  assumes "ps \<noteq> []" "\<forall>(asset, values) \<in> set ps. values \<noteq> []"
  shows "0 \<in> fluct_values ps"
proof -
  from assms(1) obtain asset vs where in_ps: "(asset, vs) \<in> set ps"
    by (cases ps) auto
  with assms(2) have "vs \<noteq> []" by auto
  then have "0 \<in> set (compute_fluctuation vs)"
    by (rule zero_in_compute_fluctuation)
  with in_ps show ?thesis
    by (auto simp: fluct_values_def)
qed

lemma fluct_loop_raw:
  assumes "ps \<noteq> []" "\<forall>(asset, values) \<in> set ps. values \<noteq> []"
  shows "fluct_loop ps (0, 0) = Inr (Min (fluct_values ps), Max (fluct_values ps))"
  using fluct_loop_Min_Max [OF assms(2), of 0 0] zero_in_fluct_values [OF assms]
  by (simp add: insert_absorb)

lemma raw_spans_zero:
  assumes "ps \<noteq> []" "\<forall>(asset, values) \<in> set ps. values \<noteq> []"
  shows "Min (fluct_values ps) \<le> 0" "0 \<le> Max (fluct_values ps)"
  using zero_in_fluct_values [OF assms] fluct_values_finite [of ps]
  by simp_all

text \<open>
  Claim C4. In \<open>render_svg\<close> the right-scale domain is computed from the minimum and the
  maximum over the assets' fluctuation series in a fixed order: if the raw minimum equals
  the raw maximum, the minimum is decreased by 1 and the maximum increased by 1; then
  each end is extended by 5% of the resulting span. The nudge is not applied after the
  padding (which, on equal raw bounds, would leave the bounds at distance 1 from them).
\<close>

theorem fluct_scale_nudge_then_pad:
  assumes "ps \<noteq> []" "\<forall>(asset, values) \<in> set ps. values \<noteq> []"
  shows "fluct_loop ps (0, 0) = Inr (Min (fluct_values ps), Max (fluct_values ps)) \<and>
         (Min (fluct_values ps) = Max (fluct_values ps) \<longrightarrow>
            fluct_scale ps =
              Inr (Min (fluct_values ps) - 1
                     - ((Max (fluct_values ps) + 1) - (Min (fluct_values ps) - 1)) * (5 / 100),
                   Max (fluct_values ps) + 1
                     + ((Max (fluct_values ps) + 1) - (Min (fluct_values ps) - 1)) * (5 / 100)) \<and>
            fluct_scale ps \<noteq> Inr (Min (fluct_values ps) - 1, Max (fluct_values ps) + 1)) \<and>
         (Min (fluct_values ps) \<noteq> Max (fluct_values ps) \<longrightarrow>
            fluct_scale ps =
              Inr (Min (fluct_values ps)
                     - (Max (fluct_values ps) - Min (fluct_values ps)) * (5 / 100),
                   Max (fluct_values ps)
                     + (Max (fluct_values ps) - Min (fluct_values ps)) * (5 / 100)))"
  unfolding fluct_scale_def fluct_loop_raw [OF assms]
  by (simp add: Let_def)

theorem fluct_scale_nudge_then_pad_witness:
  "fluct_values [(''ABTC'', [100, 110, 90]), (''BTC'', [200, 190, 210])]
     = {0, 10, - (200 / 11), - 5, 200 / 19} \<and>
   fluct_scale [(''ABTC'', [100, 110, 90]), (''BTC'', [200, 190, 210])]
     = Inr (- (4100 / 209), 2500 / 209) \<and>
   fluct_values [(''ABTC'', [100, 100]), (''BTC'', [200, 200])] = {0} \<and>
   fluct_loop [(''ABTC'', [100, 100]), (''BTC'', [200, 200])] (0, 0) = Inr (0, 0) \<and>
   fluct_scale [(''ABTC'', [100, 100]), (''BTC'', [200, 200])] = Inr (- (11 / 10), 11 / 10)"
proof -
  let ?p = "[(''ABTC'', [100, 110, 90]), (''BTC'', [200, 190, 210])] :: (string \<times> real list) list"
  let ?q = "[(''ABTC'', [100, 100]), (''BTC'', [200, 200])] :: (string \<times> real list) list"
  have fp: "fluct_values ?p = {0, 10, - (200 / 11), - 5, 200 / 19}"
    by (auto simp: fluct_values_def compute_fluctuation_def fluctuation_step_def)
  have fq: "fluct_values ?q = {0}"
    by (simp add: fluct_values_def compute_fluctuation_def fluctuation_step_def)
  have mp: "Min (fluct_values ?p) = - (200 / 11)" "Max (fluct_values ?p) = 200 / 19"
    unfolding fp by simp_all
  have mq: "Min (fluct_values ?q) = 0" "Max (fluct_values ?q) = 0"
    unfolding fq by simp_all
  have hp: "?p \<noteq> []" "\<forall>(asset, values) \<in> set ?p. values \<noteq> []" by simp_all
  have hq: "?q \<noteq> []" "\<forall>(asset, values) \<in> set ?q. values \<noteq> []" by simp_all
  have "fluct_scale ?p = Inr (- (4100 / 209), 2500 / 209)"
    using fluct_scale_nudge_then_pad [OF hp] unfolding mp by simp
  moreover have "fluct_loop ?q (0, 0) = Inr (0, 0)"
    using fluct_scale_nudge_then_pad [OF hq] unfolding mq by simp
  moreover have "fluct_scale ?q = Inr (- (11 / 10), 11 / 10)"
    using fluct_scale_nudge_then_pad [OF hq] unfolding mq by simp
  ultimately show ?thesis using fp fq by blast
qed

lemma fluct_loop_total:
  assumes "\<forall>(asset, values) \<in> set ps. values \<noteq> []"
  shows "\<exists>lo hi. fluct_loop ps (0, 0) = Inr (lo, hi) \<and> lo \<le> 0 \<and> 0 \<le> hi"
proof -
  have fin: "finite (insert 0 (fluct_values ps))"
    by (simp add: fluct_values_finite)
  have "Min (insert 0 (fluct_values ps)) \<le> 0" "0 \<le> Max (insert 0 (fluct_values ps))"
    using fin by (simp_all add: fluct_values_finite)
  with fluct_loop_Min_Max [OF assms, of 0 0] show ?thesis by blast
qed

text \<open>
  Claim C10. For every price dictionary whose price lists are non-empty, the loop of
  \<open>render_svg\<close> ends with raw bounds \<open>fluct_min \<le> 0 \<le> fluct_max\<close>, before the nudge and
  the padding: every fluctuation series begins with 0 and both accumulators start at 0.
  Hence the right-scale domain spans zero.
\<close>

theorem fluct_raw_domain_contains_zero:
  assumes "\<forall>(asset, values) \<in> set ps. values \<noteq> []"
  shows "\<exists>lo hi. fluct_loop ps (0, 0) = Inr (lo, hi) \<and> lo \<le> 0 \<and> 0 \<le> hi \<and>
           (\<exists>a b. fluct_scale ps = Inr (a, b) \<and> a < 0 \<and> 0 < b)"
proof -
  from fluct_loop_total [OF assms] obtain lo hi
    where raw: "fluct_loop ps (0, 0) = Inr (lo, hi)" and lo: "lo \<le> 0" and hi: "0 \<le> hi"
    by blast
  show ?thesis
  proof (cases "lo = hi")
    case True
    with lo hi have "lo = 0" "hi = 0" by simp_all
    with raw have "fluct_scale ps = Inr (- (11 / 10), 11 / 10)"
      by (simp add: fluct_scale_def)
    moreover have "- (11 / 10) < (0::real)" "(0::real) < 11 / 10" by simp_all
    ultimately show ?thesis using raw lo hi by blast
  next
    case False
    with lo hi have pos: "0 < (hi - lo) * (5 / 100)" by simp
    from raw False
    have "fluct_scale ps = Inr (lo - (hi - lo) * (5 / 100), hi + (hi - lo) * (5 / 100))"
      by (simp add: fluct_scale_def Let_def)
    moreover from pos lo have "lo - (hi - lo) * (5 / 100) < 0" by linarith
    moreover from pos hi have "0 < hi + (hi - lo) * (5 / 100)" by linarith
    ultimately show ?thesis using raw lo hi by blast
  qed
qed

theorem fluct_raw_domain_contains_zero_witness:
  "fluct_loop [(''ABTC'', [100, 110, 90]), (''BTC'', [200, 190, 210])] (0, 0)
     = Inr (- (200 / 11), 200 / 19) \<and>
   - (200 / 11) \<le> (0::real) \<and> (0::real) \<le> 200 / 19 \<and>
   (\<exists>lo hi. fluct_loop [(''ABTC'', [10, 20, 30]), (''BTC'', [5, 8])] (0, 0) = Inr (lo, hi) \<and>
      lo \<le> 0 \<and> 0 \<le> hi \<and>
      (\<exists>a b. fluct_scale [(''ABTC'', [10, 20, 30]), (''BTC'', [5, 8])] = Inr (a, b) \<and>
         a < 0 \<and> 0 < b))"
proof -
  let ?p = "[(''ABTC'', [100, 110, 90]), (''BTC'', [200, 190, 210])] :: (string \<times> real list) list"
  let ?q = "[(''ABTC'', [10, 20, 30]), (''BTC'', [5, 8])] :: (string \<times> real list) list"
  have hq: "\<forall>(asset, values) \<in> set ?q. values \<noteq> []" by simp
  have "fluct_loop ?p (0, 0) = Inr (- (200 / 11), 200 / 19)"
    by (simp add: compute_fluctuation_def fluctuation_step_def)
  then show ?thesis
    using fluct_raw_domain_contains_zero [OF hq] by simp
qed

section \<open>Properties of the left scale\<close>

subsection \<open>Rounding to a double is monotone\<close>


lemma round_half_even_of_int: "round_half_even (of_int k) = k"
  by (simp add: round_half_even_def Let_def)



















lemma round64_val_0: "round64_val 0 = 0"
  using round_half_even_of_int [of 0] by (simp add: round64_val_def)


subsection \<open>The mapping\<close>












section \<open>Properties of the date labels\<close>

lemma no_multiple_between:
  fixes s i k :: nat
  assumes "s dvd i" "i < k" "k < i + s"
  shows "\<not> s dvd k"
proof
  assume "s dvd k"
  then have "s dvd (k - i)" using assms(1) by (rule dvd_diff_nat)
  moreover from assms have "0 < k - i" "k - i < s" by simp_all
  ultimately show False by (simp add: nat_dvd_not_less)
qed

lemma filter_dvd_gap:
  fixes s i n :: nat
  assumes "s dvd i" "n \<le> i + s"
  shows "filter (\<lambda>k. s dvd k) [Suc i..<n] = []"
proof -
  have "\<not> s dvd k" if "k \<in> set [Suc i..<n]" for k
  proof (rule no_multiple_between [OF assms(1)])
    from that show "i < k" by simp
    from that assms(2) show "k < i + s" by simp
  qed
  then show ?thesis by (simp add: filter_empty_conv)
qed

lemma range_step_filter:
  assumes "0 < s" "s dvd i"
  shows "range_step i n s = filter (\<lambda>k. s dvd k) [i..<n]"
  using assms
proof (induction i n s rule: range_step.induct)
  case (1 i n s)
  show ?case
  proof (cases "i < n")
    case False
    then show ?thesis by simp
  next
    case True
    from "1.prems" have dvd': "s dvd (i + s)" by simp
    have IH: "range_step (i + s) n s = filter (\<lambda>k. s dvd k) [i + s..<n]"
      using "1.IH" "1.prems"(1) True dvd' by simp
    have split: "filter (\<lambda>k. s dvd k) [Suc i..<n] = filter (\<lambda>k. s dvd k) [i + s..<n]"
    proof (cases "i + s \<le> n")
      case True
      from "1.prems"(1) have "Suc i \<le> i + s" by simp
      with True have "[Suc i..<n] = [Suc i..<i + s] @ [i + s..<n]"
        by (metis le_Suc_ex upt_add_eq_append)
      then show ?thesis
        using filter_dvd_gap [OF "1.prems"(2), of "i + s"] by simp
    next
      case False
      then have le: "n \<le> i + s" by simp
      then have e1: "[i + s..<n] = []" by simp
      have e2: "filter (\<lambda>k. s dvd k) [Suc i..<n] = []"
        using "1.prems"(2) le by (rule filter_dvd_gap)
      show ?thesis unfolding e1 e2 by simp
    qed
    have "range_step i n s = i # range_step (i + s) n s"
      using True "1.prems"(1) by simp
    also have "\<dots> = i # filter (\<lambda>k. s dvd k) [Suc i..<n]"
      unfolding IH split ..
    also have "\<dots> = filter (\<lambda>k. s dvd k) [i..<n]"
      using True "1.prems"(2) by (simp add: upt_conv_Cons)
    finally show ?thesis .
  qed
qed

lemma label_indices_large:
  assumes "6 \<le> n"
  shows "label_indices n =
           filter (\<lambda>k. k mod label_stride n = 0) [0..<n] @
           (if (n - 1) mod label_stride n = 0 then [] else [n - 1])"
proof -
  from assms have s: "label_stride n = n div 5" and pos: "0 < n div 5"
    by (simp_all add: label_stride_def)
  from assms have e: "int n - 1 = int (n - 1)" by simp
  have "int ((n - 1) mod (n div 5)) = int (n - 1) mod int (n div 5)"
    by (rule zmod_int)
  then have m: "((int n - 1) mod int (n div 5) \<noteq> 0) = ((n - 1) mod (n div 5) \<noteq> 0)"
    unfolding e by (metis of_nat_eq_0_iff)
  have "label_indices n =
          range_step 0 n (n div 5) @ (if (n - 1) mod (n div 5) \<noteq> 0 then [n - 1] else [])"
    using assms pos unfolding label_indices_def Let_def m [symmetric]
    by (simp add: min_def max_def)
  also have "range_step 0 n (n div 5) = filter (\<lambda>k. n div 5 dvd k) [0..<n]"
    using pos by (rule range_step_filter) simp
  finally show ?thesis
    by (simp add: s mod_eq_0_iff_dvd)
qed

lemma label_indices_1_to_5:
  "label_indices 1 = filter (\<lambda>k. k mod label_stride 1 = 0) [0..<1] @
     (if (1 - 1) mod label_stride 1 = 0 then [] else [1 - 1])"
  "label_indices 2 = filter (\<lambda>k. k mod label_stride 2 = 0) [0..<2] @
     (if (2 - 1) mod label_stride 2 = 0 then [] else [2 - 1])"
  "label_indices 3 = filter (\<lambda>k. k mod label_stride 3 = 0) [0..<3] @
     (if (3 - 1) mod label_stride 3 = 0 then [] else [3 - 1])"
  "label_indices 4 = filter (\<lambda>k. k mod label_stride 4 = 0) [0..<4] @
     (if (4 - 1) mod label_stride 4 = 0 then [] else [4 - 1])"
  "label_indices 5 = filter (\<lambda>k. k mod label_stride 5 = 0) [0..<5] @
     (if (5 - 1) mod label_stride 5 = 0 then [] else [5 - 1])"
  by (simp_all add: label_indices_def label_stride_def upt_rec)

lemma label_indices_upto_5:
  assumes "1 \<le> n" "n < 6"
  shows "label_indices n =
           filter (\<lambda>k. k mod label_stride n = 0) [0..<n] @
           (if (n - 1) mod label_stride n = 0 then [] else [n - 1])"
proof -
  from assms consider "n = 1" | "n = 2" | "n = 3" | "n = 4" | "n = 5" by arith
  then show ?thesis
    by cases (simp_all only: label_indices_1_to_5)
qed

text \<open>
  Claim C7. For a series of length \<open>n \<ge> 1\<close>, the set of indices at which \<open>render_svg\<close>
  emits a date label is the set of the indices \<open>0, s, 2s, ...\<close> below \<open>n\<close> for the stride
  \<open>s = max(1, n // 5)\<close>, together with the final index \<open>n - 1\<close>, which is labelled in
  addition when it is not a multiple of the stride. The labels are emitted in this
  order.
\<close>

theorem label_indices_spec:
  assumes "1 \<le> n"
  shows "set (label_indices n) = {k. k < n \<and> k mod label_stride n = 0} \<union> {n - 1} \<and>
         label_indices n =
           filter (\<lambda>k. k mod label_stride n = 0) [0..<n] @
           (if (n - 1) mod label_stride n = 0 then [] else [n - 1])"
proof -
  have list: "label_indices n =
           filter (\<lambda>k. k mod label_stride n = 0) [0..<n] @
           (if (n - 1) mod label_stride n = 0 then [] else [n - 1])"
    using assms label_indices_large [of n] label_indices_upto_5 [of n]
    by (cases "6 \<le> n") simp_all
  from assms have "n - 1 < n" by simp
  then have "set (label_indices n) = {k. k < n \<and> k mod label_stride n = 0} \<union> {n - 1}"
    unfolding list by auto
  with list show ?thesis by blast
qed

theorem label_indices_spec_witness:
  "label_stride 12 = 2 \<and> label_indices 12 = [0, 2, 4, 6, 8, 10, 11] \<and>
   set (label_indices 12) = {0, 2, 4, 6, 8, 10, 11} \<and>
   label_stride 2 = 1 \<and> label_indices 2 = [0, 1]"
proof -
  have s: "label_stride 12 = 2" "label_stride 2 = 1"
    by (simp_all add: label_stride_def)
  have "label_indices 12 = [0, 2, 4, 6, 8, 10, 11]"
    using label_indices_spec [of 12] by (simp add: s upt_rec)
  moreover have "label_indices 2 = [0, 1]"
    using label_indices_spec [of 2] by (simp add: s upt_rec)
  ultimately show ?thesis using s by simp
qed

section \<open>Properties of the currency formatter\<close>

lemma digit_char_in_digits: "d < 10 \<Longrightarrow> digit_char d \<in> set ''0123456789''"
  unfolding digit_char_def by (rule nth_mem) simp

lemma nat_digits_chars: "set (nat_digits n) \<subseteq> set ''0123456789''"
proof (induction n rule: nat_digits.induct)
  case (1 n)
  show ?case
  proof (cases "n < 10")
    case True
    then show ?thesis
      using digit_char_in_digits [of n] by (subst nat_digits.simps) simp
  next
    case False
    have "n mod 10 < 10" by simp
    then have "digit_char (n mod 10) \<in> set ''0123456789''"
      by (rule digit_char_in_digits)
    with False "1.IH" show ?thesis
      by (subst nat_digits.simps) simp
  qed
qed

lemma group_thousands_chars: "set (group_thousands ds) \<subseteq> insert CHR '','' (set ds)"
proof (induction ds rule: group_thousands.induct)
  case (1 ds)
  show ?case
  proof (cases "length ds \<le> 3")
    case True
    then show ?thesis
      by (subst group_thousands.simps) auto
  next
    case False
    have "set (take (length ds - 3) ds) \<subseteq> set ds" "set (drop (length ds - 3) ds) \<subseteq> set ds"
      by (simp_all add: set_take_subset set_drop_subset)
    with False "1.IH" show ?thesis
      by (subst group_thousands.simps) auto
  qed
qed

lemma no_point_in_whole: "CHR ''.'' \<notin> set (group_thousands (nat_digits n))"
proof
  assume "CHR ''.'' \<in> set (group_thousands (nat_digits n))"
  with group_thousands_chars [of "nat_digits n"]
  have "CHR ''.'' \<in> insert CHR '','' (set (nat_digits n))" by blast
  with nat_digits_chars [of n] show False by auto
qed

lemma format_comma_f_0_no_point: "CHR ''.'' \<notin> set (format_comma_f 0 v)"
  by (simp add: format_comma_f_def Let_def no_point_in_whole)

lemma format_comma_f_2_point: "CHR ''.'' \<in> set (format_comma_f 2 v)"
  by (simp add: format_comma_f_def Let_def)

lemma format_comma_f_differ: "format_comma_f 0 v \<noteq> format_comma_f 2 v"
  using format_comma_f_0_no_point [of v] format_comma_f_2_point [of v] by metis

text \<open>
  Claim C8, as amended. The currency formatter returns the no-decimal
  thousands-separated format exactly when the absolute value of \<open>v\<close> is at least 1000
  (\<open>v \<ge> 1000\<close> or \<open>v \<le> -1000\<close>), and the two-decimal thousands-separated format exactly
  when it is below 1000. The two formats of a value always differ, the second having a
  decimal point.
\<close>

theorem format_currency_spec:
  "(format_currency v = ''$'' @ format_comma_f 0 v \<longleftrightarrow> 1000 \<le> \<bar>v\<bar>) \<and>
   (format_currency v = ''$'' @ format_comma_f 2 v \<longleftrightarrow> \<bar>v\<bar> < 1000)"
  using format_comma_f_differ [of v]
  by (auto simp: format_currency_def)

theorem format_currency_spec_witness:
  "format_currency 1000 = ''$1,000'' \<and> format_currency (- 1000) = ''$-1,000'' \<and>
   format_currency (2469 / 2) = ''$1,234'' \<and> format_currency (1999 / 2) = ''$999.50'' \<and>
   format_currency 1000 = ''$'' @ format_comma_f 0 1000 \<and>
   format_currency (1999 / 2) = ''$'' @ format_comma_f 2 (1999 / 2)"
proof -
  have "format_currency 1000 = ''$'' @ format_comma_f 0 1000"
    using format_currency_spec [of 1000] by simp
  moreover have "format_currency (1999 / 2) = ''$'' @ format_comma_f 2 (1999 / 2)"
    using format_currency_spec [of "1999 / 2"] by simp
  moreover have "format_comma_f 0 1000 = ''1,000''" "format_comma_f 2 (1999 / 2) = ''999.50''"
    by (simp_all add: format_comma_f_def round_half_even_def
        nat_digits.simps group_thousands.simps digit_char_def zero_pad_def)
  moreover have "format_currency (- 1000) = ''$-1,000''" "format_currency (2469 / 2) = ''$1,234''"
    by (simp_all add: format_currency_def format_comma_f_def round_half_even_def
        nat_digits.simps group_thousands.simps digit_char_def zero_pad_def)
  ultimately show ?thesis by simp
qed

text \<open>
  Claim C8 as the specification states it, with the no-decimal format exactly when the
  absolute value is strictly greater than 1000, fails at 1000: the formatter returns
  \<open>$1,000\<close> there, not \<open>$1,000.00\<close>.
\<close>

theorem format_currency_at_1000_counterexample:
  "format_currency 1000 = ''$1,000'' \<and>
   ''$'' @ format_comma_f 2 1000 = ''$1,000.00'' \<and>
   \<not> (format_currency 1000 = ''$'' @ format_comma_f 0 1000 \<longleftrightarrow> 1000 < \<bar>1000 :: real\<bar>)"
  by (simp add: format_currency_def format_comma_f_def round_half_even_def
      nat_digits.simps group_thousands.simps digit_char_def zero_pad_def)

section \<open>Properties of the loader\<close>

lemma missing_assets_nonempty:
  "\<not> set ASSETS \<subseteq> set names \<Longrightarrow> filter (\<lambda>asset. asset \<notin> set names) ASSETS \<noteq> []"
  by (auto simp: filter_empty_conv)

lemma missing_assets_empty:
  "set ASSETS \<subseteq> set names \<Longrightarrow> filter (\<lambda>asset. asset \<notin> set names) ASSETS = []"
  by (auto simp: filter_empty_conv)

text \<open>
  Claim C5, as amended. \<open>load_price_data\<close> fails with \<^verbatim>\<open>ValueError\<close> when the \<open>date\<close>
  column or one of the two asset columns is missing from the header, whatever the data
  rows hold and whatever the parsers of dates and numbers would do on them, so before
  any data row is read or any number computed; and it fails with \<^verbatim>\<open>ValueError\<close> when the
  header is valid and there is no data row. The three cases differ by their message.
\<close>

theorem load_price_data_errors:
  "(''date'' \<notin> set (fieldnames records) \<longrightarrow>
      load_price_data fromisoformat py_float records =
        Inl (ValueError ''CSV must contain a 'date' column'')) \<and>
   (''date'' \<in> set (fieldnames records) \<and> \<not> set ASSETS \<subseteq> set (fieldnames records) \<longrightarrow>
      load_price_data fromisoformat py_float records =
        Inl (ValueError (''CSV is missing expected asset columns: '' @
               join '', '' (filter (\<lambda>asset. asset \<notin> set (fieldnames records)) ASSETS)))) \<and>
   (''date'' \<in> set (fieldnames records) \<and> set ASSETS \<subseteq> set (fieldnames records) \<and>
    data_rows records = [] \<longrightarrow>
      load_price_data fromisoformat py_float records =
        Inl (ValueError ''No rows found in price CSV''))"
proof (intro conjI impI)
  assume "''date'' \<notin> set (fieldnames records)"
  then show "load_price_data fromisoformat py_float records =
      Inl (ValueError ''CSV must contain a 'date' column'')"
    by (simp add: load_price_data_def Let_def)
next
  assume a: "''date'' \<in> set (fieldnames records) \<and> \<not> set ASSETS \<subseteq> set (fieldnames records)"
  then have "filter (\<lambda>asset. asset \<notin> set (fieldnames records)) ASSETS \<noteq> []"
    by (simp add: missing_assets_nonempty)
  with a show "load_price_data fromisoformat py_float records =
      Inl (ValueError (''CSV is missing expected asset columns: '' @
             join '', '' (filter (\<lambda>asset. asset \<notin> set (fieldnames records)) ASSETS)))"
    by (simp add: load_price_data_def Let_def)
next
  assume a: "''date'' \<in> set (fieldnames records) \<and> set ASSETS \<subseteq> set (fieldnames records) \<and>
    data_rows records = []"
  then have "filter (\<lambda>asset. asset \<notin> set (fieldnames records)) ASSETS = []"
    by (simp add: missing_assets_empty)
  with a show "load_price_data fromisoformat py_float records =
      Inl (ValueError ''No rows found in price CSV'')"
    by (simp add: load_price_data_def Let_def)
qed

theorem load_price_data_errors_witness:
  "load_price_data
     (\<lambda>s. Inl (ValueError ''Invalid isoformat string'') :: error + unit)
     (\<lambda>s. Inl (ValueError ''could not convert string to float''))
     [[''day'', ''ABTC'', ''BTC''], [''2024-01-01'', ''x'', ''y'']]
     = Inl (ValueError ''CSV must contain a 'date' column'') \<and>
   load_price_data
     (\<lambda>s. Inl (ValueError ''Invalid isoformat string'') :: error + unit)
     (\<lambda>s. Inl (ValueError ''could not convert string to float''))
     [[''date'', ''ABTC''], [''?'', ''x'']]
     = Inl (ValueError ''CSV is missing expected asset columns: BTC'') \<and>
   load_price_data
     (\<lambda>s. Inl (ValueError ''Invalid isoformat string'') :: error + unit)
     (\<lambda>s. Inl (ValueError ''could not convert string to float''))
     [[''date'', ''ABTC'', ''BTC''], []]
     = Inl (ValueError ''No rows found in price CSV'')"
proof -
  let ?iso = "\<lambda>s :: string. Inl (ValueError ''Invalid isoformat string'') :: error + unit"
  let ?flt = "\<lambda>s :: string. Inl (ValueError ''could not convert string to float'') :: error + real"
  let ?a = "[[''day'', ''ABTC'', ''BTC''], [''2024-01-01'', ''x'', ''y'']]"
  let ?b = "[[''date'', ''ABTC''], [''?'', ''x'']]"
  let ?c = "[[''date'', ''ABTC'', ''BTC''], []]"
  have "load_price_data ?iso ?flt ?a
          = Inl (ValueError ''CSV must contain a 'date' column'')"
    using load_price_data_errors [of ?a ?iso ?flt]
    by (simp add: fieldnames_def)
  moreover have "load_price_data ?iso ?flt ?b
          = Inl (ValueError ''CSV is missing expected asset columns: BTC'')"
    using load_price_data_errors [of ?b ?iso ?flt]
    by (simp add: fieldnames_def ASSETS_def)
  moreover have "load_price_data ?iso ?flt ?c
          = Inl (ValueError ''No rows found in price CSV'')"
    using load_price_data_errors [of ?c ?iso ?flt]
    by (simp add: fieldnames_def ASSETS_def data_rows_def)
  ultimately show ?thesis by blast
qed

text \<open>
  Claim C5 as the specification states it, with a \<open>FormatError\<close> for a missing column
  and a \<open>DataError\<close> for an empty body, fails: without a \<open>date\<close> column the exception is
  a \<^verbatim>\<open>ValueError\<close>, and so it is for a header with no data row; the two failures have
  one class.
\<close>

theorem load_price_data_error_class_counterexample:
  "load_price_data
     (\<lambda>s. Inl (ValueError ''Invalid isoformat string'') :: error + unit)
     (\<lambda>s. Inl (ValueError ''could not convert string to float''))
     [[''day'', ''ABTC'', ''BTC''], [''2024-01-01'', ''1'', ''2'']]
     = Inl (ValueError ''CSV must contain a 'date' column'') \<and>
   exception_class (ValueError ''CSV must contain a 'date' column'') = ''ValueError'' \<and>
   exception_class (ValueError ''CSV must contain a 'date' column'') \<noteq> ''FormatError'' \<and>
   load_price_data
     (\<lambda>s. Inl (ValueError ''Invalid isoformat string'') :: error + unit)
     (\<lambda>s. Inl (ValueError ''could not convert string to float''))
     [[''date'', ''ABTC'', ''BTC'']]
     = Inl (ValueError ''No rows found in price CSV'') \<and>
   exception_class (ValueError ''No rows found in price CSV'') = ''ValueError'' \<and>
   exception_class (ValueError ''No rows found in price CSV'') \<noteq> ''DataError''"
  by (simp add: load_price_data_def fieldnames_def ASSETS_def data_rows_def
      exception_class_def)

end
